theory Spec2Isabelle
  imports Main "HOL-Library.AList"
begin

section \<open>Values, entities and query specifications\<close>

text \<open>
  The repository is TypeScript: at run time an entity, a query specification and the
  options handed to the store are plain JavaScript objects. An object is modelled as an
  association list in property order; an identifier (\<open>IdType extends string | number\<close>)
  is the value held by the \<open>id\<close> property.
\<close>

datatype val =
    VUndefined
  | VNull
  | VBool bool
  | VNum int
  | VStr string
  | VArr "val list"
  | VObj "(string \<times> val) list"

type_synonym obj = "(string \<times> val) list"
type_synonym ident = val
type_synonym entity = obj
type_synonym query = obj

text \<open>Property read \<open>o[k]\<close> on an object: \<open>undefined\<close> when the property is missing.\<close>

definition obj_get :: "obj \<Rightarrow> string \<Rightarrow> val" where
  "obj_get ob k = (case map_of ob k of None \<Rightarrow> VUndefined | Some v \<Rightarrow> v)"

text \<open>Property read on an arbitrary (truthy) value: only objects carry named properties.\<close>

fun get_prop :: "val \<Rightarrow> string \<Rightarrow> val" where
  "get_prop (VObj ob) k = obj_get ob k"
| "get_prop _ k = VUndefined"

text \<open>JavaScript truthiness, as tested by \<open>if (query)\<close> and \<open>if (paginateOptions)\<close>.\<close>

fun truthy :: "val \<Rightarrow> bool" where
  "truthy VUndefined = False"
| "truthy VNull = False"
| "truthy (VBool b) = b"
| "truthy (VNum n) = (n \<noteq> 0)"
| "truthy (VStr s) = (s \<noteq> [])"
| "truthy (VArr _) = True"
| "truthy (VObj _) = True"

text \<open>The entity's identifier, \<open>e.id\<close>.\<close>

definition entity_id :: "entity \<Rightarrow> ident" where
  "entity_id e = obj_get e ''id''"

text \<open>
  Modelled from the spec: the constants \<open>PAGINATE_KEY\<close>, \<open>PAGINATE_PAGE\<close> and
  \<open>PAGINATE_LIMIT\<close> are imported from the shared domain library, which is not among the
  sources. The spec names the page number \<open>page\<close> and the page size \<open>limit\<close>; the source
  reads both from the object stored under \<open>PAGINATE_KEY\<close>.
\<close>

definition PAGINATE_KEY :: string where
  "PAGINATE_KEY = ''__paginate''"

definition PAGINATE_PAGE :: string where
  "PAGINATE_PAGE = ''page''"

definition PAGINATE_LIMIT :: string where
  "PAGINATE_LIMIT = ''limit''"

section \<open>Relation path extractor and result projector\<close>

text \<open>
  Modelled from the spec: \<open>createTypeormRelationsArray\<close> lives in
  \<open>relations.transform.ts\<close>, which is not among the sources. Following section 4.1 of the
  spec: every key that holds a nested specification (an object) is emitted, followed by
  the paths of the nested specification prefixed with the key and a dot; a scalar key
  contributes nothing; the reserved pagination keys are excluded; the result has no
  duplicates.
\<close>

definition reserved_key :: "string \<Rightarrow> bool" where
  "reserved_key k = (k = PAGINATE_KEY \<or> k = PAGINATE_PAGE \<or> k = PAGINATE_LIMIT)"

fun relation_paths_fields :: "(string \<times> val) list \<Rightarrow> string list" where
  "relation_paths_fields [] = []"
| "relation_paths_fields ((k, VObj sub) # qs) =
     (if reserved_key k then []
      else k # map (\<lambda>p. k @ ''.'' @ p) (relation_paths_fields sub))
     @ relation_paths_fields qs"
| "relation_paths_fields ((k, v) # qs) = relation_paths_fields qs"

definition createTypeormRelationsArray :: "query \<Rightarrow> string list" where
  "createTypeormRelationsArray q = remdups (relation_paths_fields q)"

text \<open>
  Modelled from the spec: \<open>parseQuery\<close> is imported from the shared domain library, which
  is not among the sources. Following section 4.2 of the spec: a sequence is projected
  element by element in input order; for an object, each key of the specification that
  the object has is kept, a \<open>true\<close> key copying the field and a nested specification
  projecting the relation value recursively; keys outside the specification are
  dropped; the reserved pagination entry does not shape an item; an absent value is
  passed through (the projector never raises on absence).
\<close>

fun project :: "val \<Rightarrow> val \<Rightarrow> val"
  and project_fields :: "(string \<times> val) list \<Rightarrow> obj \<Rightarrow> obj" where
  "project q (VArr vs) = VArr (map (project q) vs)"
| "project (VObj qs) (VObj fs) = VObj (project_fields qs fs)"
| "project q v = v"
| "project_fields [] fs = []"
| "project_fields ((k, qv) # qs) fs =
     (if k = PAGINATE_KEY then project_fields qs fs
      else case map_of fs k of
             None \<Rightarrow> project_fields qs fs
           | Some v \<Rightarrow> (k, if qv = VBool True then v else project qv v) # project_fields qs fs)"

text \<open>
  What a store read hands to the projector: nothing (\<open>undefined\<close>), one entity, a list of
  entities, or one page of entities with its counts (\<open>Pagination<Entity>\<close>).
\<close>

datatype dbres =
    NoEntity
  | OneEntity entity
  | ManyEntities "entity list"
  | PageOf "entity list" obj

fun parseQuery :: "query \<Rightarrow> dbres \<Rightarrow> dbres" where
  "parseQuery q NoEntity = NoEntity"
| "parseQuery q (OneEntity e) = OneEntity (project_fields q e)"
| "parseQuery q (ManyEntities es) = ManyEntities (map (project_fields q) es)"
| "parseQuery q (PageOf es meta) = PageOf (map (project_fields q) es) meta"

section \<open>The backing store\<close>

text \<open>
  Errors are values: \<open>NotFound\<close> is what the store's \<open>findOneOrFail\<close> raises when no row
  matches, \<open>StoreFailure\<close> is a write the store rejects. Every operation returns either
  an error or a result, together with the state it leaves behind.
\<close>

datatype error = NotFound | StoreFailure

text \<open>An argument that the callee accepts either as one item or as an array of items.\<close>

datatype 'a arg = Single 'a | Batch "'a list"

fun members :: "'a arg \<Rightarrow> 'a list" where
  "members (Single x) = [x]"
| "members (Batch xs) = xs"

text \<open>
  Every call that leaves the class is recorded, in order, with its arguments: the calls
  on the injected \<open>repo\<close>, the call of the pagination helper, and the call of
  \<open>gatewaysStorage.trigger\<close>.
\<close>

datatype call =
    RepoFindOneOrFail ident "string list option"
  | RepoFindOne ident "string list option"
  | RepoFindByIds "ident list" "string list option"
  | RepoFind "obj option" "string list option"
  | Paginate val val "obj option" "string list"
  | RepoSave "entity arg"
  | RepoDelete "ident arg"
  | Trigger "ident arg"

record state =
  rows :: "entity list"
  trace :: "call list"

text \<open>
  The store is an external collaborator (an ORM repository over a relational
  database, and a pagination helper). What it does with a relation list, with find
  options, with a page request, and which writes it rejects, is its own business and is
  taken as a parameter.
\<close>

record driver =
  drv_load :: "string list option \<Rightarrow> entity \<Rightarrow> entity"
  drv_select :: "obj option \<Rightarrow> entity list \<Rightarrow> entity list"
  drv_page :: "val \<Rightarrow> val \<Rightarrow> entity list \<Rightarrow> entity list \<times> obj"
  drv_save_fails :: "entity list \<Rightarrow> entity list \<Rightarrow> bool"
  drv_delete_fails :: "ident list \<Rightarrow> entity list \<Rightarrow> bool"

definition record_call :: "call \<Rightarrow> state \<Rightarrow> state" where
  "record_call c s = s\<lparr>trace := trace s @ [c]\<rparr>"

text \<open>Sequencing of awaited calls: an error ends the operation, as a rejected promise does.\<close>

definition await :: "(error + 'a) \<times> state \<Rightarrow> ('a \<Rightarrow> state \<Rightarrow> (error + 'b) \<times> state)
    \<Rightarrow> (error + 'b) \<times> state" where
  "await r f = (case r of (Inl err, s) \<Rightarrow> (Inl err, s) | (Inr x, s) \<Rightarrow> f x s)"

text \<open>The row of the table with a given identifier.\<close>

definition lookup_row :: "ident \<Rightarrow> entity list \<Rightarrow> entity option" where
  "lookup_row i tbl = find (\<lambda>r. entity_id r = i) tbl"

text \<open>
  Modelled from the spec: the injected \<open>repo\<close> is an ORM \<open>Repository<Entity>\<close>, whose code
  is not among the sources. Its reads by identifier, as the spec gives them: a
  single-entity fetch fails with \<open>NotFound\<close> if no row matches the id
  (\<open>findOneOrFail\<close>) or yields nothing (\<open>findOne\<close>); a batch fetch by id leaves missing
  ids silently out of the result.
\<close>

definition repo_findOneOrFail ::
    "driver \<Rightarrow> ident \<Rightarrow> string list option \<Rightarrow> state \<Rightarrow> (error + dbres) \<times> state" where
  "repo_findOneOrFail d i relations s =
     (case lookup_row i (rows s) of
        None \<Rightarrow> Inl NotFound
      | Some r \<Rightarrow> Inr (OneEntity (drv_load d relations r)),
      record_call (RepoFindOneOrFail i relations) s)"

definition repo_findOne ::
    "driver \<Rightarrow> ident \<Rightarrow> string list option \<Rightarrow> state \<Rightarrow> (error + dbres) \<times> state" where
  "repo_findOne d i relations s =
     (case lookup_row i (rows s) of
        None \<Rightarrow> Inr NoEntity
      | Some r \<Rightarrow> Inr (OneEntity (drv_load d relations r)),
      record_call (RepoFindOne i relations) s)"

definition repo_findByIds ::
    "driver \<Rightarrow> ident list \<Rightarrow> string list option \<Rightarrow> state \<Rightarrow> (error + dbres) \<times> state" where
  "repo_findByIds d ids relations s =
     (Inr (ManyEntities (map (drv_load d relations)
             (filter (\<lambda>r. entity_id r \<in> set ids) (rows s)))),
      record_call (RepoFindByIds ids relations) s)"

text \<open>
  Modelled from the spec: \<open>repo.find\<close> and the pagination helper \<open>paginate\<close> are library
  code, not among the sources. They fetch the full set, or one page of it with its
  counts; the rows chosen by the find options and the slice that makes a page are the
  store's.
\<close>

definition repo_find ::
    "driver \<Rightarrow> obj option \<Rightarrow> string list option \<Rightarrow> state \<Rightarrow> (error + dbres) \<times> state" where
  "repo_find d options relations s =
     (Inr (ManyEntities (map (drv_load d relations) (drv_select d options (rows s)))),
      record_call (RepoFind options relations) s)"

definition paginate ::
    "driver \<Rightarrow> val \<Rightarrow> val \<Rightarrow> obj option \<Rightarrow> string list \<Rightarrow> state \<Rightarrow> (error + dbres) \<times> state" where
  "paginate d page limit options relations s =
     (case drv_page d page limit (drv_select d options (rows s)) of
        (items, meta) \<Rightarrow> Inr (PageOf (map (drv_load d (Some relations)) items) meta),
      record_call (Paginate page limit options relations) s)"

text \<open>
  Modelled from the spec: \<open>repo.save\<close> is library code, not among the sources. A write has
  upsert-by-id semantics: if a row with the entity's id exists, the fields the entity
  names are written over it and the fields it does not name keep their prior values;
  otherwise the entity is inserted. A write the store rejects leaves the table as it
  was and propagates as a failure.
\<close>

definition save_row :: "entity list \<Rightarrow> entity \<Rightarrow> entity list" where
  "save_row tbl e =
     (case lookup_row (entity_id e) tbl of
        None \<Rightarrow> tbl @ [e]
      | Some _ \<Rightarrow> map (\<lambda>r. if entity_id r = entity_id e then AList.merge r e else r) tbl)"

definition repo_save :: "driver \<Rightarrow> entity arg \<Rightarrow> state \<Rightarrow> (error + unit) \<times> state" where
  "repo_save d a s =
     (if drv_save_fails d (members a) (rows s)
      then (Inl StoreFailure, record_call (RepoSave a) s)
      else (Inr (), record_call (RepoSave a) (s\<lparr>rows := foldl save_row (rows s) (members a)\<rparr>)))"

text \<open>
  Modelled from the spec: \<open>repo.delete\<close> is library code, not among the sources. Deleting
  removes the rows with the given ids; a delete the store rejects propagates as a
  failure.
\<close>

definition repo_delete :: "driver \<Rightarrow> ident arg \<Rightarrow> state \<Rightarrow> (error + unit) \<times> state" where
  "repo_delete d a s =
     (if drv_delete_fails d (members a) (rows s)
      then (Inl StoreFailure, record_call (RepoDelete a) s)
      else (Inr (), record_call (RepoDelete a)
              (s\<lparr>rows := filter (\<lambda>r. entity_id r \<notin> set (members a)) (rows s)\<rparr>)))"

text \<open>
  Modelled from the spec: \<open>GatewaysStorage.trigger\<close> lives in \<open>subscription-storage.ts\<close>,
  which is not among the sources. It takes one id or an array of ids and starts the
  fan-out to the matching subscriptions; the call is synchronous and not awaited, so
  what the class observes of it is that it was invoked, when, and with which ids.
\<close>

definition trigger :: "ident arg \<Rightarrow> state \<Rightarrow> state" where
  "trigger a s = record_call (Trigger a) s"

section \<open>The repository class \<open>IBaseRepository\<close>\<close>

text \<open>
  The optional parameter \<open>query?\<close> is an object when present, hence truthy: the test
  \<open>if (query)\<close> is the case distinction on the option.
\<close>

definition findOneOrFail ::
    "driver \<Rightarrow> ident \<Rightarrow> query option \<Rightarrow> state \<Rightarrow> (error + dbres) \<times> state" where
  "findOneOrFail d i qopt s =
     (case qopt of
        Some q \<Rightarrow>
          (let relations = createTypeormRelationsArray q
           in await (repo_findOneOrFail d i (Some relations) s)
                (\<lambda>dbRes s'. (Inr (parseQuery q dbRes), s')))
      | None \<Rightarrow> repo_findOneOrFail d i None s)"

definition findOne ::
    "driver \<Rightarrow> ident \<Rightarrow> query option \<Rightarrow> state \<Rightarrow> (error + dbres) \<times> state" where
  "findOne d i qopt s =
     (case qopt of
        Some q \<Rightarrow>
          (let relations = createTypeormRelationsArray q
           in await (repo_findOne d i (Some relations) s)
                (\<lambda>dbRes s'. (Inr (parseQuery q dbRes), s')))
      | None \<Rightarrow> repo_findOne d i None s)"

definition findMany ::
    "driver \<Rightarrow> ident list \<Rightarrow> query option \<Rightarrow> state \<Rightarrow> (error + dbres) \<times> state" where
  "findMany d ids qopt s =
     (if length ids = 0 then (Inr (ManyEntities []), s)
      else case qopt of
        Some q \<Rightarrow>
          (let relations = createTypeormRelationsArray q
           in await (repo_findByIds d ids (Some relations) s)
                (\<lambda>dbRes s'. (Inr (parseQuery q dbRes), s')))
      | None \<Rightarrow> repo_findByIds d ids None s)"

definition findAll :: "driver \<Rightarrow> query option \<Rightarrow> state \<Rightarrow> (error + dbres) \<times> state" where
  "findAll d qopt s =
     (case qopt of
        Some q \<Rightarrow>
          (let relations = createTypeormRelationsArray q
           in await (repo_find d None (Some relations) s)
                (\<lambda>dbRes s'. (Inr (parseQuery q dbRes), s')))
      | None \<Rightarrow> repo_find d None None s)"

definition provisionQuery ::
    "driver \<Rightarrow> query \<Rightarrow> obj option \<Rightarrow> state \<Rightarrow> (error + dbres) \<times> state" where
  "provisionQuery d q options s =
     (let relations = createTypeormRelationsArray q;
          paginateOptions = obj_get q PAGINATE_KEY
      in if truthy paginateOptions
         then paginate d (get_prop paginateOptions PAGINATE_PAGE)
                (get_prop paginateOptions PAGINATE_LIMIT) options relations s
         else repo_find d options (Some relations) s)"

definition query :: "driver \<Rightarrow> query \<Rightarrow> obj option \<Rightarrow> state \<Rightarrow> (error + dbres) \<times> state" where
  "query d q options s =
     await (provisionQuery d q options s) (\<lambda>entities s'. (Inr (parseQuery q entities), s'))"

text \<open>
  The record handed to \<open>save\<close> by \<open>update\<close> is \<open>{ ...entity, id }\<close>: the properties of the
  partial entity, with \<open>id\<close> set to the argument (in place if the partial already has
  one, at the end otherwise).
\<close>

definition update ::
    "driver \<Rightarrow> ident \<Rightarrow> entity \<Rightarrow> query option \<Rightarrow> state \<Rightarrow> (error + dbres) \<times> state" where
  "update d i entity qopt s =
     await (repo_save d (Single (AList.update ''id'' i entity)) s)
       (\<lambda>_ s1. let s2 = trigger (Single i) s1
               in case qopt of
                    Some q \<Rightarrow> findOneOrFail d i (Some q) s2
                  | None \<Rightarrow> findOneOrFail d i None s2)"

definition upsert ::
    "driver \<Rightarrow> entity \<Rightarrow> query option \<Rightarrow> state \<Rightarrow> (error + dbres) \<times> state" where
  "upsert d entity qopt s =
     await (repo_save d (Single entity) s)
       (\<lambda>_ s1. let s2 = trigger (Single (entity_id entity)) s1
               in case qopt of
                    Some q \<Rightarrow> findOneOrFail d (entity_id entity) (Some q) s2
                  | None \<Rightarrow> findOneOrFail d (entity_id entity) None s2)"

definition upsertMany ::
    "driver \<Rightarrow> entity list \<Rightarrow> query option \<Rightarrow> state \<Rightarrow> (error + dbres) \<times> state" where
  "upsertMany d entities qopt s =
     (if length entities = 0 then (Inr (ManyEntities []), s)
      else await (repo_save d (Batch entities) s)
             (\<lambda>_ s1. let ids = map entity_id entities;
                         s2 = trigger (Batch ids) s1
                     in case qopt of
                          Some q \<Rightarrow> findMany d ids (Some q) s2
                        | None \<Rightarrow> findMany d ids None s2))"

definition delete :: "driver \<Rightarrow> ident \<Rightarrow> state \<Rightarrow> (error + ident) \<times> state" where
  "delete d i s =
     await (repo_delete d (Single i) s) (\<lambda>_ s1. (Inr i, trigger (Single i) s1))"

definition deleteMany :: "driver \<Rightarrow> ident list \<Rightarrow> state \<Rightarrow> (error + ident list) \<times> state" where
  "deleteMany d ids s =
     (if length ids = 0 then (Inr [], s)
      else await (repo_delete d (Batch ids) s) (\<lambda>_ s1. (Inr ids, trigger (Batch ids) s1)))"

section \<open>Vocabulary for the statements\<close>

text \<open>
  The relation list handed to the store and the projection applied to what it returns,
  for a call with or without a query specification.
\<close>

definition relations_of :: "query option \<Rightarrow> string list option" where
  "relations_of qopt = map_option createTypeormRelationsArray qopt"

definition projected :: "query option \<Rightarrow> dbres \<Rightarrow> dbres" where
  "projected qopt res = (case qopt of None \<Rightarrow> res | Some q \<Rightarrow> parseQuery q res)"

text \<open>The calls an operation made: what it added to the trace it started from.\<close>

definition calls_since :: "state \<Rightarrow> state \<Rightarrow> call list" where
  "calls_since s s' = drop (length (trace s)) (trace s')"

text \<open>The invalidations a list of calls holds, oldest first, and the records it saved.\<close>

fun triggered :: "call list \<Rightarrow> ident arg list" where
  "triggered [] = []"
| "triggered (Trigger a # cs) = a # triggered cs"
| "triggered (c # cs) = triggered cs"

fun saved :: "call list \<Rightarrow> entity arg list" where
  "saved [] = []"
| "saved (RepoSave a # cs) = a # saved cs"
| "saved (c # cs) = saved cs"

text \<open>A run of \<open>query\<close> is in paginated mode when it calls the pagination helper.\<close>

fun is_paginate :: "call \<Rightarrow> bool" where
  "is_paginate (Paginate page limit options relations) = True"
| "is_paginate c = False"

definition paginated_mode :: "driver \<Rightarrow> query \<Rightarrow> obj option \<Rightarrow> state \<Rightarrow> bool" where
  "paginated_mode d q options s =
     list_ex is_paginate (calls_since s (snd (query d q options s)))"

text \<open>
  The spec's wording of the pagination switch, kept apart from the code's: the query
  specification carries a page number and a page size as two keys at its top level.
\<close>

definition spec_pagination_keys_at_top_level :: "query \<Rightarrow> bool" where
  "spec_pagination_keys_at_top_level q =
     (PAGINATE_PAGE \<in> fst ` set q \<and> PAGINATE_LIMIT \<in> fst ` set q)"

subsection \<open>A small store to run the operations on\<close>

definition demo_driver :: driver where
  "demo_driver =
     \<lparr> drv_load = (\<lambda>relations e. e),
       drv_select = (\<lambda>options tbl. tbl),
       drv_page = (\<lambda>page limit tbl. (take 1 tbl, [(''totalItems'', VNum (int (length tbl)))])),
       drv_save_fails = (\<lambda>es tbl. False),
       drv_delete_fails = (\<lambda>ids tbl. False) \<rparr>"

text \<open>A store that rejects every write.\<close>

definition refusing_driver :: driver where
  "refusing_driver =
     demo_driver\<lparr> drv_save_fails := (\<lambda>es tbl. True), drv_delete_fails := (\<lambda>ids tbl. True) \<rparr>"

definition demo_state :: state where
  "demo_state =
     \<lparr> rows = [[(''id'', VStr ''a''), (''name'', VStr ''Ann''), (''age'', VNum 30)],
               [(''id'', VStr ''b''), (''name'', VStr ''Bob'')]],
       trace = [] \<rparr>"

definition demo_patch :: entity where
  "demo_patch = [(''name'', VStr ''Anna''), (''id'', VStr ''zzz'')]"

definition demo_batch :: "entity list" where
  "demo_batch = [[(''id'', VStr ''b''), (''name'', VStr ''Bobby'')], [(''id'', VStr ''d'')]]"

definition demo_spec :: query where
  "demo_spec = [(''name'', VBool True)]"

definition demo_page_query :: query where
  "demo_page_query =
     [(''__paginate'', VObj [(''page'', VNum 1), (''limit'', VNum 1)]), (''name'', VBool True)]"

definition demo_flat_query :: query where
  "demo_flat_query = [(''page'', VNum 1), (''limit'', VNum 1), (''name'', VBool True)]"

section \<open>Facts about objects and the table\<close>

lemma find_append_cases:
  "find P (xs @ ys) = (case find P xs of None \<Rightarrow> find P ys | Some x \<Rightarrow> Some x)"
  by (induction xs) auto

lemma obj_get_merge:
  "obj_get (AList.merge r e) k = (if k \<in> fst ` set e then obj_get e k else obj_get r k)"
proof (cases "map_of e k")
  case None
  then have "k \<notin> fst ` set e" by (simp add: map_of_eq_None_iff)
  with None show ?thesis by (simp add: obj_get_def merge_conv' map_add_def)
next
  case (Some v)
  then have "k \<in> fst ` set e" by (metis map_of_eq_None_iff option.distinct(1))
  with Some show ?thesis by (simp add: obj_get_def merge_conv' map_add_def)
qed

lemma obj_get_absent: "k \<notin> fst ` set e \<Longrightarrow> obj_get e k = VUndefined"
  by (simp add: obj_get_def map_of_eq_None_iff [symmetric])

lemma obj_get_update: "obj_get (AList.update k v e) k' = (if k' = k then v else obj_get e k')"
  by (simp add: obj_get_def update_conv')

lemma entity_id_update [simp]: "entity_id (AList.update ''id'' i entity) = i"
  by (simp add: entity_id_def obj_get_update)

lemma entity_id_merge: "entity_id r = entity_id e \<Longrightarrow> entity_id (AList.merge r e) = entity_id e"
  by (auto simp: entity_id_def obj_get_def merge_conv' map_add_def split: option.splits)

lemma lookup_row_save_row_same:
  "lookup_row (entity_id e) (save_row tbl e) =
     Some (case lookup_row (entity_id e) tbl of None \<Rightarrow> e | Some r \<Rightarrow> AList.merge r e)"
proof (cases "lookup_row (entity_id e) tbl")
  case None
  then show ?thesis by (simp add: save_row_def lookup_row_def find_append_cases)
next
  case (Some r)
  have "find (\<lambda>x. entity_id x = entity_id e) tbl = Some r \<Longrightarrow>
        find (\<lambda>x. entity_id x = entity_id e)
          (map (\<lambda>x. if entity_id x = entity_id e then AList.merge x e else x) tbl)
        = Some (AList.merge r e)"
    by (induction tbl) (auto simp: entity_id_merge)
  with Some show ?thesis by (simp add: save_row_def lookup_row_def)
qed

lemma lookup_row_save_row_other:
  assumes ne: "j \<noteq> entity_id e"
  shows "lookup_row j (save_row tbl e) = lookup_row j tbl"
proof -
  have m: "find (\<lambda>x. entity_id x = j)
             (map (\<lambda>x. if entity_id x = entity_id e then AList.merge x e else x) tbl)
           = find (\<lambda>x. entity_id x = j) tbl"
    using ne by (induction tbl) (auto simp: entity_id_merge)
  show ?thesis using ne m
    by (auto simp: save_row_def lookup_row_def find_append_cases split: option.splits)
qed

lemma lookup_row_foldl_save_row_keeps:
  "lookup_row j tbl \<noteq> None \<Longrightarrow> lookup_row j (foldl save_row tbl es) \<noteq> None"
proof (induction es arbitrary: tbl)
  case Nil
  then show ?case by simp
next
  case (Cons e es)
  have "lookup_row j (save_row tbl e) \<noteq> None"
  proof (cases "j = entity_id e")
    case True
    then show ?thesis by (simp add: lookup_row_save_row_same)
  next
    case False
    then show ?thesis using Cons.prems by (simp add: lookup_row_save_row_other)
  qed
  then show ?case using Cons.IH by simp
qed

lemma lookup_row_foldl_save_row_written:
  "e \<in> set es \<Longrightarrow> lookup_row (entity_id e) (foldl save_row tbl es) \<noteq> None"
proof (induction es arbitrary: tbl)
  case Nil
  then show ?case by simp
next
  case (Cons x es)
  show ?case
  proof (cases "e = x")
    case True
    have "lookup_row (entity_id x) (save_row tbl x) \<noteq> None"
      by (simp add: lookup_row_save_row_same)
    then show ?thesis using True by (simp add: lookup_row_foldl_save_row_keeps)
  next
    case False
    then show ?thesis using Cons by simp
  qed
qed

lemma lookup_row_foldl_save_row_other:
  "j \<notin> entity_id ` set es \<Longrightarrow> lookup_row j (foldl save_row tbl es) = lookup_row j tbl"
  by (induction es arbitrary: tbl) (auto simp: lookup_row_save_row_other)

lemma lookup_row_filter_out: "lookup_row i (filter (\<lambda>r. entity_id r \<noteq> i) tbl) = None"
  by (induction tbl) (auto simp: lookup_row_def)

lemma lookup_row_filter_keep:
  "j \<noteq> i \<Longrightarrow> lookup_row j (filter (\<lambda>r. entity_id r \<noteq> i) tbl) = lookup_row j tbl"
  by (induction tbl) (auto simp: lookup_row_def)

lemma lookup_row_filter_set:
  "lookup_row j (filter (\<lambda>r. entity_id r \<notin> set ids) tbl) =
     (if j \<in> set ids then None else lookup_row j tbl)"
  by (induction tbl) (auto simp: lookup_row_def)

lemma rows_record_call [simp]: "rows (record_call c s) = rows s"
  by (simp add: record_call_def)

lemma trace_record_call [simp]: "trace (record_call c s) = trace s @ [c]"
  by (simp add: record_call_def)

lemma rows_trigger [simp]: "rows (trigger a s) = rows s"
  by (simp add: trigger_def)

lemma trace_trigger [simp]: "trace (trigger a s) = trace s @ [Trigger a]"
  by (simp add: trigger_def)

lemma triggered_append: "triggered (xs @ ys) = triggered xs @ triggered ys"
  by (induction xs rule: triggered.induct) auto

lemma projected_OneEntity:
  "projected qopt (OneEntity e) =
     OneEntity (case qopt of None \<Rightarrow> e | Some q \<Rightarrow> project_fields q e)"
  by (simp add: projected_def split: option.splits)

section \<open>The reads in closed form\<close>

lemma findOneOrFail_eq:
  "findOneOrFail d i qopt s =
     (case lookup_row i (rows s) of
        None \<Rightarrow> Inl NotFound
      | Some r \<Rightarrow> Inr (projected qopt (OneEntity (drv_load d (relations_of qopt) r))),
      record_call (RepoFindOneOrFail i (relations_of qopt)) s)"
  by (simp add: findOneOrFail_def repo_findOneOrFail_def await_def projected_def
      relations_of_def Let_def split: option.splits)

lemma findOne_eq:
  "findOne d i qopt s =
     (case lookup_row i (rows s) of
        None \<Rightarrow> Inr NoEntity
      | Some r \<Rightarrow> Inr (projected qopt (OneEntity (drv_load d (relations_of qopt) r))),
      record_call (RepoFindOne i (relations_of qopt)) s)"
  by (simp add: findOne_def repo_findOne_def await_def projected_def
      relations_of_def Let_def split: option.splits)

lemma findMany_eq:
  "ids \<noteq> [] \<Longrightarrow> findMany d ids qopt s =
     (Inr (projected qopt (ManyEntities (map (drv_load d (relations_of qopt))
             (filter (\<lambda>r. entity_id r \<in> set ids) (rows s))))),
      record_call (RepoFindByIds ids (relations_of qopt)) s)"
  by (simp add: findMany_def repo_findByIds_def await_def projected_def
      relations_of_def Let_def split: option.splits)

lemma findAll_eq:
  "findAll d qopt s =
     (Inr (projected qopt (ManyEntities (map (drv_load d (relations_of qopt))
             (drv_select d None (rows s))))),
      record_call (RepoFind None (relations_of qopt)) s)"
  by (simp add: findAll_def repo_find_def await_def projected_def
      relations_of_def Let_def split: option.splits)

lemma query_eq:
  "query d q options s =
     (if truthy (obj_get q PAGINATE_KEY)
      then (Inr (parseQuery q
                  (PageOf (map (drv_load d (Some (createTypeormRelationsArray q)))
                            (fst (drv_page d (get_prop (obj_get q PAGINATE_KEY) PAGINATE_PAGE)
                                   (get_prop (obj_get q PAGINATE_KEY) PAGINATE_LIMIT)
                                   (drv_select d options (rows s)))))
                     (snd (drv_page d (get_prop (obj_get q PAGINATE_KEY) PAGINATE_PAGE)
                            (get_prop (obj_get q PAGINATE_KEY) PAGINATE_LIMIT)
                            (drv_select d options (rows s)))))),
            record_call (Paginate (get_prop (obj_get q PAGINATE_KEY) PAGINATE_PAGE)
              (get_prop (obj_get q PAGINATE_KEY) PAGINATE_LIMIT) options
              (createTypeormRelationsArray q)) s)
      else (Inr (parseQuery q
                  (ManyEntities (map (drv_load d (Some (createTypeormRelationsArray q)))
                     (drv_select d options (rows s))))),
            record_call (RepoFind options (Some (createTypeormRelationsArray q))) s))"
  by (simp add: query_def provisionQuery_def paginate_def repo_find_def await_def Let_def
      split: prod.splits)

section \<open>The writes, accepted or rejected by the store\<close>

lemma update_accepted:
  "\<not> drv_save_fails d [AList.update ''id'' i entity] (rows s) \<Longrightarrow>
   update d i entity qopt s =
     findOneOrFail d i qopt (trigger (Single i)
       (record_call (RepoSave (Single (AList.update ''id'' i entity)))
          (s\<lparr>rows := save_row (rows s) (AList.update ''id'' i entity)\<rparr>)))"
  by (cases qopt) (simp_all add: update_def repo_save_def await_def Let_def)

lemma update_rejected:
  "drv_save_fails d [AList.update ''id'' i entity] (rows s) \<Longrightarrow>
   update d i entity qopt s =
     (Inl StoreFailure, record_call (RepoSave (Single (AList.update ''id'' i entity))) s)"
  by (simp add: update_def repo_save_def await_def)

lemma upsert_accepted:
  "\<not> drv_save_fails d [entity] (rows s) \<Longrightarrow>
   upsert d entity qopt s =
     findOneOrFail d (entity_id entity) qopt (trigger (Single (entity_id entity))
       (record_call (RepoSave (Single entity)) (s\<lparr>rows := save_row (rows s) entity\<rparr>)))"
  by (cases qopt) (simp_all add: upsert_def repo_save_def await_def Let_def)

lemma upsert_rejected:
  "drv_save_fails d [entity] (rows s) \<Longrightarrow>
   upsert d entity qopt s = (Inl StoreFailure, record_call (RepoSave (Single entity)) s)"
  by (simp add: upsert_def repo_save_def await_def)

lemma upsertMany_accepted:
  "entities \<noteq> [] \<Longrightarrow> \<not> drv_save_fails d entities (rows s) \<Longrightarrow>
   upsertMany d entities qopt s =
     findMany d (map entity_id entities) qopt (trigger (Batch (map entity_id entities))
       (record_call (RepoSave (Batch entities)) (s\<lparr>rows := foldl save_row (rows s) entities\<rparr>)))"
  by (cases qopt) (simp_all add: upsertMany_def repo_save_def await_def Let_def)

lemma upsertMany_rejected:
  "entities \<noteq> [] \<Longrightarrow> drv_save_fails d entities (rows s) \<Longrightarrow>
   upsertMany d entities qopt s = (Inl StoreFailure, record_call (RepoSave (Batch entities)) s)"
  by (simp add: upsertMany_def repo_save_def await_def)

lemma delete_accepted:
  "\<not> drv_delete_fails d [i] (rows s) \<Longrightarrow>
   delete d i s =
     (Inr i, trigger (Single i) (record_call (RepoDelete (Single i))
               (s\<lparr>rows := filter (\<lambda>r. entity_id r \<noteq> i) (rows s)\<rparr>)))"
  by (simp add: delete_def repo_delete_def await_def)

lemma delete_rejected:
  "drv_delete_fails d [i] (rows s) \<Longrightarrow>
   delete d i s = (Inl StoreFailure, record_call (RepoDelete (Single i)) s)"
  by (simp add: delete_def repo_delete_def await_def)

lemma deleteMany_accepted:
  "ids \<noteq> [] \<Longrightarrow> \<not> drv_delete_fails d ids (rows s) \<Longrightarrow>
   deleteMany d ids s =
     (Inr ids, trigger (Batch ids) (record_call (RepoDelete (Batch ids))
               (s\<lparr>rows := filter (\<lambda>r. entity_id r \<notin> set ids) (rows s)\<rparr>)))"
  by (simp add: deleteMany_def repo_delete_def await_def)

lemma deleteMany_rejected:
  "ids \<noteq> [] \<Longrightarrow> drv_delete_fails d ids (rows s) \<Longrightarrow>
   deleteMany d ids s = (Inl StoreFailure, record_call (RepoDelete (Batch ids)) s)"
  by (simp add: deleteMany_def repo_delete_def await_def)

text \<open>Unfolding the operations on the small store.\<close>

lemmas demo_eval = demo_driver_def demo_state_def demo_patch_def lookup_row_def entity_id_def
  obj_get_def projected_def relations_of_def save_row_def AList.merge_def

lemmas demo_run = update_def upsert_def upsertMany_def delete_def deleteMany_def
  findOneOrFail_def findOne_def findMany_def repo_save_def repo_delete_def
  repo_findOneOrFail_def repo_findOne_def repo_findByIds_def
  await_def trigger_def record_call_def calls_since_def Let_def
  demo_driver_def demo_state_def demo_patch_def demo_batch_def lookup_row_def entity_id_def
  obj_get_def save_row_def AList.merge_def createTypeormRelationsArray_def

section \<open>The claims\<close>

subsection \<open>Order of write, invalidation and return\<close>

text \<open>
  C1. For every mutating operation (\<open>update\<close>, \<open>upsert\<close>, \<open>upsertMany\<close> on a non-empty
  list, \<open>delete\<close>, \<open>deleteMany\<close> on a non-empty list) and every input, with or without a
  query specification: if the store completes the write, the calls the operation makes
  are, in this order, the store write, then the invalidation trigger, then (for the
  three upserting operations) the re-read, and the operation returns a result. The
  trigger is invoked on the state the write left, the re-read runs on the state the
  trigger left, and both hold the same table, the one the operation leaves behind;
  the returned value is what reading again in that final state gives, so it reflects
  the post-write table the subscribers were notified about. The deletions return their
  argument. If the store rejects the write, the write is the only call made: the
  trigger is not invoked, the table is unchanged and the caller gets the failure, not
  a result.
\<close>

theorem trigger_after_write_before_return:
  "(\<not> drv_save_fails d [AList.update ''id'' i entity] (rows s) \<longrightarrow>
      calls_since s (snd (update d i entity qopt s)) =
        [RepoSave (Single (AList.update ''id'' i entity)), Trigger (Single i),
         RepoFindOneOrFail i (relations_of qopt)]
    \<and> snd (update d i entity qopt s) =
        record_call (RepoFindOneOrFail i (relations_of qopt))
          (trigger (Single i) (snd (repo_save d (Single (AList.update ''id'' i entity)) s)))
    \<and> rows (snd (repo_save d (Single (AList.update ''id'' i entity)) s)) =
        save_row (rows s) (AList.update ''id'' i entity)
    \<and> rows (snd (update d i entity qopt s)) = save_row (rows s) (AList.update ''id'' i entity)
    \<and> (\<exists>v. fst (update d i entity qopt s) = Inr v
           \<and> fst (findOneOrFail d i qopt (snd (update d i entity qopt s))) = Inr v))
 \<and> (drv_save_fails d [AList.update ''id'' i entity] (rows s) \<longrightarrow>
      update d i entity qopt s =
        (Inl StoreFailure, record_call (RepoSave (Single (AList.update ''id'' i entity))) s))
 \<and> (\<not> drv_save_fails d [entity] (rows s) \<longrightarrow>
      calls_since s (snd (upsert d entity qopt s)) =
        [RepoSave (Single entity), Trigger (Single (entity_id entity)),
         RepoFindOneOrFail (entity_id entity) (relations_of qopt)]
    \<and> snd (upsert d entity qopt s) =
        record_call (RepoFindOneOrFail (entity_id entity) (relations_of qopt))
          (trigger (Single (entity_id entity)) (snd (repo_save d (Single entity) s)))
    \<and> rows (snd (repo_save d (Single entity) s)) = save_row (rows s) entity
    \<and> rows (snd (upsert d entity qopt s)) = save_row (rows s) entity
    \<and> (\<exists>v. fst (upsert d entity qopt s) = Inr v
           \<and> fst (findOneOrFail d (entity_id entity) qopt (snd (upsert d entity qopt s))) = Inr v))
 \<and> (drv_save_fails d [entity] (rows s) \<longrightarrow>
      upsert d entity qopt s = (Inl StoreFailure, record_call (RepoSave (Single entity)) s))
 \<and> (entities \<noteq> [] \<and> \<not> drv_save_fails d entities (rows s) \<longrightarrow>
      calls_since s (snd (upsertMany d entities qopt s)) =
        [RepoSave (Batch entities), Trigger (Batch (map entity_id entities)),
         RepoFindByIds (map entity_id entities) (relations_of qopt)]
    \<and> snd (upsertMany d entities qopt s) =
        record_call (RepoFindByIds (map entity_id entities) (relations_of qopt))
          (trigger (Batch (map entity_id entities)) (snd (repo_save d (Batch entities) s)))
    \<and> rows (snd (repo_save d (Batch entities) s)) = foldl save_row (rows s) entities
    \<and> rows (snd (upsertMany d entities qopt s)) = foldl save_row (rows s) entities
    \<and> (\<exists>v. fst (upsertMany d entities qopt s) = Inr v
           \<and> fst (findMany d (map entity_id entities) qopt (snd (upsertMany d entities qopt s)))
               = Inr v))
 \<and> (entities \<noteq> [] \<and> drv_save_fails d entities (rows s) \<longrightarrow>
      upsertMany d entities qopt s =
        (Inl StoreFailure, record_call (RepoSave (Batch entities)) s))
 \<and> (\<not> drv_delete_fails d [i] (rows s) \<longrightarrow>
      calls_since s (snd (delete d i s)) = [RepoDelete (Single i), Trigger (Single i)]
    \<and> snd (delete d i s) = trigger (Single i) (snd (repo_delete d (Single i) s))
    \<and> rows (snd (repo_delete d (Single i) s)) = filter (\<lambda>r. entity_id r \<noteq> i) (rows s)
    \<and> rows (snd (delete d i s)) = filter (\<lambda>r. entity_id r \<noteq> i) (rows s)
    \<and> lookup_row i (rows (snd (delete d i s))) = None
    \<and> fst (delete d i s) = Inr i)
 \<and> (drv_delete_fails d [i] (rows s) \<longrightarrow>
      delete d i s = (Inl StoreFailure, record_call (RepoDelete (Single i)) s))
 \<and> (ids \<noteq> [] \<and> \<not> drv_delete_fails d ids (rows s) \<longrightarrow>
      calls_since s (snd (deleteMany d ids s)) = [RepoDelete (Batch ids), Trigger (Batch ids)]
    \<and> snd (deleteMany d ids s) = trigger (Batch ids) (snd (repo_delete d (Batch ids) s))
    \<and> rows (snd (repo_delete d (Batch ids) s)) = filter (\<lambda>r. entity_id r \<notin> set ids) (rows s)
    \<and> rows (snd (deleteMany d ids s)) = filter (\<lambda>r. entity_id r \<notin> set ids) (rows s)
    \<and> fst (deleteMany d ids s) = Inr ids)
 \<and> (ids \<noteq> [] \<and> drv_delete_fails d ids (rows s) \<longrightarrow>
      deleteMany d ids s = (Inl StoreFailure, record_call (RepoDelete (Batch ids)) s))"
proof -
  let ?e = "AList.update ''id'' i entity"
  have upd: "\<not> drv_save_fails d [?e] (rows s) \<Longrightarrow>
      calls_since s (snd (update d i entity qopt s)) =
        [RepoSave (Single ?e), Trigger (Single i), RepoFindOneOrFail i (relations_of qopt)]
    \<and> snd (update d i entity qopt s) =
        record_call (RepoFindOneOrFail i (relations_of qopt))
          (trigger (Single i) (snd (repo_save d (Single ?e) s)))
    \<and> rows (snd (repo_save d (Single ?e) s)) = save_row (rows s) ?e
    \<and> rows (snd (update d i entity qopt s)) = save_row (rows s) ?e
    \<and> (\<exists>v. fst (update d i entity qopt s) = Inr v
           \<and> fst (findOneOrFail d i qopt (snd (update d i entity qopt s))) = Inr v)"
  proof -
    assume ok: "\<not> drv_save_fails d [?e] (rows s)"
    have look: "lookup_row i (save_row (rows s) ?e) \<noteq> None"
      using lookup_row_save_row_same [of ?e "rows s"] by simp
    have save: "repo_save d (Single ?e) s =
        (Inr (), record_call (RepoSave (Single ?e)) (s\<lparr>rows := save_row (rows s) ?e\<rparr>))"
      using ok by (simp add: repo_save_def)
    show ?thesis using look
      by (auto simp: update_accepted [OF ok] findOneOrFail_eq save calls_since_def)
  qed
  have ups: "\<not> drv_save_fails d [entity] (rows s) \<Longrightarrow>
      calls_since s (snd (upsert d entity qopt s)) =
        [RepoSave (Single entity), Trigger (Single (entity_id entity)),
         RepoFindOneOrFail (entity_id entity) (relations_of qopt)]
    \<and> snd (upsert d entity qopt s) =
        record_call (RepoFindOneOrFail (entity_id entity) (relations_of qopt))
          (trigger (Single (entity_id entity)) (snd (repo_save d (Single entity) s)))
    \<and> rows (snd (repo_save d (Single entity) s)) = save_row (rows s) entity
    \<and> rows (snd (upsert d entity qopt s)) = save_row (rows s) entity
    \<and> (\<exists>v. fst (upsert d entity qopt s) = Inr v
           \<and> fst (findOneOrFail d (entity_id entity) qopt (snd (upsert d entity qopt s))) = Inr v)"
  proof -
    assume ok: "\<not> drv_save_fails d [entity] (rows s)"
    have look: "lookup_row (entity_id entity) (save_row (rows s) entity) \<noteq> None"
      by (simp add: lookup_row_save_row_same)
    have save: "repo_save d (Single entity) s =
        (Inr (), record_call (RepoSave (Single entity)) (s\<lparr>rows := save_row (rows s) entity\<rparr>))"
      using ok by (simp add: repo_save_def)
    show ?thesis using look
      by (auto simp: upsert_accepted [OF ok] findOneOrFail_eq save calls_since_def)
  qed
  have many: "entities \<noteq> [] \<Longrightarrow> \<not> drv_save_fails d entities (rows s) \<Longrightarrow>
      calls_since s (snd (upsertMany d entities qopt s)) =
        [RepoSave (Batch entities), Trigger (Batch (map entity_id entities)),
         RepoFindByIds (map entity_id entities) (relations_of qopt)]
    \<and> snd (upsertMany d entities qopt s) =
        record_call (RepoFindByIds (map entity_id entities) (relations_of qopt))
          (trigger (Batch (map entity_id entities)) (snd (repo_save d (Batch entities) s)))
    \<and> rows (snd (repo_save d (Batch entities) s)) = foldl save_row (rows s) entities
    \<and> rows (snd (upsertMany d entities qopt s)) = foldl save_row (rows s) entities
    \<and> (\<exists>v. fst (upsertMany d entities qopt s) = Inr v
           \<and> fst (findMany d (map entity_id entities) qopt (snd (upsertMany d entities qopt s)))
               = Inr v)"
  proof -
    assume ne: "entities \<noteq> []" and ok: "\<not> drv_save_fails d entities (rows s)"
    have save: "repo_save d (Batch entities) s =
        (Inr (), record_call (RepoSave (Batch entities))
                   (s\<lparr>rows := foldl save_row (rows s) entities\<rparr>))"
      using ok by (simp add: repo_save_def)
    show ?thesis using ne
      by (simp add: upsertMany_accepted [OF ne ok] findMany_eq save calls_since_def)
  qed
  have del: "\<not> drv_delete_fails d [i] (rows s) \<Longrightarrow>
      calls_since s (snd (delete d i s)) = [RepoDelete (Single i), Trigger (Single i)]
    \<and> snd (delete d i s) = trigger (Single i) (snd (repo_delete d (Single i) s))
    \<and> rows (snd (repo_delete d (Single i) s)) = filter (\<lambda>r. entity_id r \<noteq> i) (rows s)
    \<and> rows (snd (delete d i s)) = filter (\<lambda>r. entity_id r \<noteq> i) (rows s)
    \<and> lookup_row i (rows (snd (delete d i s))) = None
    \<and> fst (delete d i s) = Inr i"
    by (simp add: delete_accepted repo_delete_def calls_since_def lookup_row_filter_out)
  have delm: "ids \<noteq> [] \<Longrightarrow> \<not> drv_delete_fails d ids (rows s) \<Longrightarrow>
      calls_since s (snd (deleteMany d ids s)) = [RepoDelete (Batch ids), Trigger (Batch ids)]
    \<and> snd (deleteMany d ids s) = trigger (Batch ids) (snd (repo_delete d (Batch ids) s))
    \<and> rows (snd (repo_delete d (Batch ids) s)) = filter (\<lambda>r. entity_id r \<notin> set ids) (rows s)
    \<and> rows (snd (deleteMany d ids s)) = filter (\<lambda>r. entity_id r \<notin> set ids) (rows s)
    \<and> fst (deleteMany d ids s) = Inr ids"
    by (simp add: deleteMany_accepted repo_delete_def calls_since_def)
  from upd ups many del delm show ?thesis
    using update_rejected [of d i entity s qopt] upsert_rejected [of d entity s qopt]
      upsertMany_rejected [of entities d s qopt] delete_rejected [of d i s]
      deleteMany_rejected [of ids d s]
    by blast
qed

theorem trigger_after_write_before_return_witness:
  "\<not> drv_save_fails demo_driver [AList.update ''id'' (VStr ''a'') demo_patch] (rows demo_state)
   \<and> \<not> drv_save_fails demo_driver [demo_patch] (rows demo_state)
   \<and> demo_batch \<noteq> []
   \<and> \<not> drv_save_fails demo_driver demo_batch (rows demo_state)
   \<and> \<not> drv_delete_fails demo_driver [VStr ''a''] (rows demo_state)
   \<and> [VStr ''a'', VStr ''q''] \<noteq> []
   \<and> \<not> drv_delete_fails demo_driver [VStr ''a'', VStr ''q''] (rows demo_state)
   \<and> drv_save_fails refusing_driver [AList.update ''id'' (VStr ''a'') demo_patch] (rows demo_state)
   \<and> drv_save_fails refusing_driver [demo_patch] (rows demo_state)
   \<and> drv_save_fails refusing_driver demo_batch (rows demo_state)
   \<and> drv_delete_fails refusing_driver [VStr ''a''] (rows demo_state)
   \<and> drv_delete_fails refusing_driver [VStr ''a'', VStr ''q''] (rows demo_state)
   \<and> update demo_driver (VStr ''a'') demo_patch (Some demo_spec) demo_state =
       (Inr (OneEntity [(''name'', VStr ''Anna'')]),
        \<lparr>rows = [[(''id'', VStr ''a''), (''name'', VStr ''Anna''), (''age'', VNum 30)],
                 [(''id'', VStr ''b''), (''name'', VStr ''Bob'')]],
         trace = [RepoSave (Single [(''name'', VStr ''Anna''), (''id'', VStr ''a'')]),
                  Trigger (Single (VStr ''a'')), RepoFindOneOrFail (VStr ''a'') (Some [])]\<rparr>)
   \<and> calls_since demo_state (snd (upsert demo_driver demo_patch (Some demo_spec) demo_state)) =
       [RepoSave (Single demo_patch), Trigger (Single (VStr ''zzz'')),
        RepoFindOneOrFail (VStr ''zzz'') (Some [])]
   \<and> fst (upsert demo_driver demo_patch (Some demo_spec) demo_state) =
       Inr (OneEntity [(''name'', VStr ''Anna'')])
   \<and> calls_since demo_state (snd (upsertMany demo_driver demo_batch (Some demo_spec) demo_state)) =
       [RepoSave (Batch demo_batch), Trigger (Batch [VStr ''b'', VStr ''d'']),
        RepoFindByIds [VStr ''b'', VStr ''d''] (Some [])]
   \<and> fst (upsertMany demo_driver demo_batch (Some demo_spec) demo_state) =
       Inr (ManyEntities [[(''name'', VStr ''Bobby'')], []])
   \<and> calls_since demo_state (snd (delete demo_driver (VStr ''a'') demo_state)) =
       [RepoDelete (Single (VStr ''a'')), Trigger (Single (VStr ''a''))]
   \<and> fst (delete demo_driver (VStr ''a'') demo_state) = Inr (VStr ''a'')
   \<and> calls_since demo_state (snd (deleteMany demo_driver [VStr ''a'', VStr ''q''] demo_state)) =
       [RepoDelete (Batch [VStr ''a'', VStr ''q'']), Trigger (Batch [VStr ''a'', VStr ''q''])]
   \<and> fst (deleteMany demo_driver [VStr ''a'', VStr ''q''] demo_state) = Inr [VStr ''a'', VStr ''q'']
   \<and> update refusing_driver (VStr ''a'') demo_patch (Some demo_spec) demo_state =
       (Inl StoreFailure,
        demo_state\<lparr>trace := [RepoSave (Single [(''name'', VStr ''Anna''), (''id'', VStr ''a'')])]\<rparr>)
   \<and> upsert refusing_driver demo_patch (Some demo_spec) demo_state =
       (Inl StoreFailure, demo_state\<lparr>trace := [RepoSave (Single demo_patch)]\<rparr>)
   \<and> upsertMany refusing_driver demo_batch (Some demo_spec) demo_state =
       (Inl StoreFailure, demo_state\<lparr>trace := [RepoSave (Batch demo_batch)]\<rparr>)
   \<and> delete refusing_driver (VStr ''a'') demo_state =
       (Inl StoreFailure, demo_state\<lparr>trace := [RepoDelete (Single (VStr ''a''))]\<rparr>)
   \<and> deleteMany refusing_driver [VStr ''a'', VStr ''q''] demo_state =
       (Inl StoreFailure, demo_state\<lparr>trace := [RepoDelete (Batch [VStr ''a'', VStr ''q''])]\<rparr>)"
proof -
  have a1: "\<not> drv_save_fails demo_driver [AList.update ''id'' (VStr ''a'') demo_patch]
              (rows demo_state)"
    and a2: "\<not> drv_save_fails demo_driver [demo_patch] (rows demo_state)"
    and a3: "demo_batch \<noteq> [] \<and> \<not> drv_save_fails demo_driver demo_batch (rows demo_state)"
    and a4: "\<not> drv_delete_fails demo_driver [VStr ''a''] (rows demo_state)"
    and a5: "[VStr ''a'', VStr ''q''] \<noteq> []
              \<and> \<not> drv_delete_fails demo_driver [VStr ''a'', VStr ''q''] (rows demo_state)"
    by (simp_all add: demo_driver_def demo_batch_def)
  have r1: "drv_save_fails refusing_driver [AList.update ''id'' (VStr ''a'') demo_patch]
              (rows demo_state)"
    and r2: "drv_save_fails refusing_driver [demo_patch] (rows demo_state)"
    and r3: "demo_batch \<noteq> [] \<and> drv_save_fails refusing_driver demo_batch (rows demo_state)"
    and r4: "drv_delete_fails refusing_driver [VStr ''a''] (rows demo_state)"
    and r5: "[VStr ''a'', VStr ''q''] \<noteq> []
              \<and> drv_delete_fails refusing_driver [VStr ''a'', VStr ''q''] (rows demo_state)"
    by (simp_all add: refusing_driver_def demo_batch_def)
  note acc = trigger_after_write_before_return [where d = demo_driver and i = "VStr ''a''"
      and entity = demo_patch and qopt = "Some demo_spec" and s = demo_state
      and entities = demo_batch and ids = "[VStr ''a'', VStr ''q'']"]
  note rej = trigger_after_write_before_return [where d = refusing_driver and i = "VStr ''a''"
      and entity = demo_patch and qopt = "Some demo_spec" and s = demo_state
      and entities = demo_batch and ids = "[VStr ''a'', VStr ''q'']"]
  have c1: "calls_since demo_state
        (snd (update demo_driver (VStr ''a'') demo_patch (Some demo_spec) demo_state)) =
      [RepoSave (Single (AList.update ''id'' (VStr ''a'') demo_patch)), Trigger (Single (VStr ''a'')),
       RepoFindOneOrFail (VStr ''a'') (relations_of (Some demo_spec))]"
    using acc a1 by blast
  have c2: "calls_since demo_state (snd (upsert demo_driver demo_patch (Some demo_spec) demo_state)) =
      [RepoSave (Single demo_patch), Trigger (Single (entity_id demo_patch)),
       RepoFindOneOrFail (entity_id demo_patch) (relations_of (Some demo_spec))]"
    using acc a2 by blast
  have c3: "calls_since demo_state
        (snd (upsertMany demo_driver demo_batch (Some demo_spec) demo_state)) =
      [RepoSave (Batch demo_batch), Trigger (Batch (map entity_id demo_batch)),
       RepoFindByIds (map entity_id demo_batch) (relations_of (Some demo_spec))]"
    using acc a3 by blast
  have c4: "calls_since demo_state (snd (delete demo_driver (VStr ''a'') demo_state)) =
      [RepoDelete (Single (VStr ''a'')), Trigger (Single (VStr ''a''))]
    \<and> fst (delete demo_driver (VStr ''a'') demo_state) = Inr (VStr ''a'')"
    using acc a4 by blast
  have c5: "calls_since demo_state
        (snd (deleteMany demo_driver [VStr ''a'', VStr ''q''] demo_state)) =
      [RepoDelete (Batch [VStr ''a'', VStr ''q'']), Trigger (Batch [VStr ''a'', VStr ''q''])]
    \<and> fst (deleteMany demo_driver [VStr ''a'', VStr ''q''] demo_state) =
        Inr [VStr ''a'', VStr ''q'']"
    using acc a5 by blast
  have f1: "update refusing_driver (VStr ''a'') demo_patch (Some demo_spec) demo_state =
      (Inl StoreFailure,
       record_call (RepoSave (Single (AList.update ''id'' (VStr ''a'') demo_patch))) demo_state)"
    using rej r1 by blast
  have f2: "upsert refusing_driver demo_patch (Some demo_spec) demo_state =
      (Inl StoreFailure, record_call (RepoSave (Single demo_patch)) demo_state)"
    using rej r2 by blast
  have f3: "upsertMany refusing_driver demo_batch (Some demo_spec) demo_state =
      (Inl StoreFailure, record_call (RepoSave (Batch demo_batch)) demo_state)"
    using rej r3 by blast
  have f4: "delete refusing_driver (VStr ''a'') demo_state =
      (Inl StoreFailure, record_call (RepoDelete (Single (VStr ''a''))) demo_state)"
    using rej r4 by blast
  have f5: "deleteMany refusing_driver [VStr ''a'', VStr ''q''] demo_state =
      (Inl StoreFailure, record_call (RepoDelete (Batch [VStr ''a'', VStr ''q''])) demo_state)"
    using rej r5 by blast
  have v1: "update demo_driver (VStr ''a'') demo_patch (Some demo_spec) demo_state =
       (Inr (OneEntity [(''name'', VStr ''Anna'')]),
        \<lparr>rows = [[(''id'', VStr ''a''), (''name'', VStr ''Anna''), (''age'', VNum 30)],
                 [(''id'', VStr ''b''), (''name'', VStr ''Bob'')]],
         trace = [RepoSave (Single [(''name'', VStr ''Anna''), (''id'', VStr ''a'')]),
                  Trigger (Single (VStr ''a'')), RepoFindOneOrFail (VStr ''a'') (Some [])]\<rparr>)"
    by (simp add: demo_run demo_spec_def PAGINATE_KEY_def)
  have v2: "fst (upsert demo_driver demo_patch (Some demo_spec) demo_state) =
       Inr (OneEntity [(''name'', VStr ''Anna'')])"
    by (simp add: demo_run demo_spec_def PAGINATE_KEY_def)
  have v3: "fst (upsertMany demo_driver demo_batch (Some demo_spec) demo_state) =
       Inr (ManyEntities [[(''name'', VStr ''Bobby'')], []])"
    by (simp add: demo_run demo_spec_def PAGINATE_KEY_def)
  have ev: "entity_id demo_patch = VStr ''zzz''"
      "map entity_id demo_batch = [VStr ''b'', VStr ''d'']"
      "relations_of (Some demo_spec) = Some []"
      "AList.update ''id'' (VStr ''a'') demo_patch = [(''name'', VStr ''Anna''), (''id'', VStr ''a'')]"
    by (simp_all add: demo_patch_def demo_batch_def demo_spec_def entity_id_def obj_get_def
        relations_of_def createTypeormRelationsArray_def)
  show ?thesis
    using a1 a2 a3 a4 a5 r1 r2 r3 r4 r5 c1 c2 c3 c4 c5 f1 f2 f3 f4 f5 v1 v2 v3
    by (simp add: ev record_call_def demo_state_def)
qed

subsection \<open>\<open>update\<close>\<close>

text \<open>
  C2. For every id and partial entity, \<open>update(id, partial[, spec])\<close> writes the partial
  fields to the row identified by id with upsert-by-id semantics: after the call the
  row with that id holds the id, the fields the partial names with the partial's
  values, and every other field with the value it had before (nothing, if there was no
  such row); rows with other ids are untouched. It fires the invalidation trigger with
  exactly the single id, after the write and before the re-read, and returns what
  \<open>findOneOrFail\<close> reads back for that id: the stored row as the store loads it,
  projected through the spec when one is given and unprojected otherwise. The store
  accepting the write is the one condition.
\<close>

theorem update_writes_triggers_rereads:
  assumes ok: "\<not> drv_save_fails d [AList.update ''id'' i entity] (rows s)"
  shows "\<exists>row.
      lookup_row i (rows (snd (update d i entity qopt s))) = Some row
    \<and> row = (case lookup_row i (rows s) of
               None \<Rightarrow> AList.update ''id'' i entity
             | Some old \<Rightarrow> AList.merge old (AList.update ''id'' i entity))
    \<and> (\<forall>k. obj_get row k =
          (if k = ''id'' then i
           else if k \<in> fst ` set entity then obj_get entity k
           else case lookup_row i (rows s) of None \<Rightarrow> VUndefined | Some old \<Rightarrow> obj_get old k))
    \<and> (\<forall>j. j \<noteq> i \<longrightarrow>
          lookup_row j (rows (snd (update d i entity qopt s))) = lookup_row j (rows s))
    \<and> trace (snd (update d i entity qopt s)) =
        trace s @ [RepoSave (Single (AList.update ''id'' i entity)), Trigger (Single i),
                   RepoFindOneOrFail i (relations_of qopt)]
    \<and> triggered (calls_since s (snd (update d i entity qopt s))) = [Single i]
    \<and> update d i entity qopt s =
        findOneOrFail d i qopt (trigger (Single i)
          (snd (repo_save d (Single (AList.update ''id'' i entity)) s)))
    \<and> fst (update d i entity qopt s) =
        Inr (projected qopt (OneEntity (drv_load d (relations_of qopt) row)))"
proof -
  let ?e = "AList.update ''id'' i entity"
  let ?row = "case lookup_row i (rows s) of None \<Rightarrow> ?e | Some old \<Rightarrow> AList.merge old ?e"
  have look: "lookup_row i (save_row (rows s) ?e) = Some ?row"
    using lookup_row_save_row_same [of ?e "rows s"] by simp
  have fields: "obj_get ?row k =
          (if k = ''id'' then i
           else if k \<in> fst ` set entity then obj_get entity k
           else case lookup_row i (rows s) of None \<Rightarrow> VUndefined | Some old \<Rightarrow> obj_get old k)"
    for k
    by (auto simp: obj_get_merge obj_get_update dom_update obj_get_absent split: option.splits)
  have others: "j \<noteq> i \<Longrightarrow> lookup_row j (save_row (rows s) ?e) = lookup_row j (rows s)" for j
    using lookup_row_save_row_other [of j ?e "rows s"] by simp
  have save: "repo_save d (Single ?e) s =
      (Inr (), record_call (RepoSave (Single ?e)) (s\<lparr>rows := save_row (rows s) ?e\<rparr>))"
    using ok by (simp add: repo_save_def)
  show ?thesis
    apply (rule exI [of _ ?row])
    using look fields others
    by (simp add: update_accepted [OF ok] findOneOrFail_eq save calls_since_def)
qed

theorem update_writes_triggers_rereads_witness:
  "\<not> drv_save_fails demo_driver [AList.update ''id'' (VStr ''a'') demo_patch] (rows demo_state)
   \<and> fst (update demo_driver (VStr ''a'') demo_patch None demo_state) =
       Inr (OneEntity [(''id'', VStr ''a''), (''name'', VStr ''Anna''), (''age'', VNum 30)])
   \<and> trace (snd (update demo_driver (VStr ''a'') demo_patch None demo_state)) =
       [RepoSave (Single [(''name'', VStr ''Anna''), (''id'', VStr ''a'')]),
        Trigger (Single (VStr ''a'')), RepoFindOneOrFail (VStr ''a'') None]"
proof -
  have h: "\<not> drv_save_fails demo_driver [AList.update ''id'' (VStr ''a'') demo_patch]
             (rows demo_state)"
    by (simp add: demo_driver_def)
  from update_writes_triggers_rereads [OF h, of None]
  show ?thesis using h by (auto simp: demo_eval)
qed

subsection \<open>\<open>query\<close>\<close>

text \<open>
  C3, as the spec words it, does not hold: the switch is not two keys at the top level
  of the query specification. A specification that holds the page number and the page
  size under the reserved pagination key runs paginated although neither \<open>page\<close> nor
  \<open>limit\<close> is one of its top-level keys; a specification with \<open>page\<close> and \<open>limit\<close> as
  top-level keys runs in full-list mode.
\<close>

theorem query_pagination_keys_counterexample:
  "\<not> (paginated_mode demo_driver demo_page_query None demo_state
        \<longleftrightarrow> spec_pagination_keys_at_top_level demo_page_query)
   \<and> \<not> (paginated_mode demo_driver demo_flat_query None demo_state
        \<longleftrightarrow> spec_pagination_keys_at_top_level demo_flat_query)"
  by (simp add: paginated_mode_def query_eq calls_since_def spec_pagination_keys_at_top_level_def
      demo_page_query_def demo_flat_query_def demo_state_def
      obj_get_def PAGINATE_KEY_def PAGINATE_PAGE_def PAGINATE_LIMIT_def)

text \<open>
  C3, amended. \<open>query(spec[, options])\<close> runs in paginated mode exactly when the query
  specification holds a truthy value under the single reserved pagination key at its
  top level. It then makes one call to the store's paginate capability, with the page
  number and the page size read from that value, the options and the extracted
  relations, and gets one page with its counts. Otherwise it makes one call fetching
  the full set with the options and the extracted relations. In both modes the result
  is projected through the spec.
\<close>

theorem query_mode_by_reserved_key:
  "paginated_mode d q options s = truthy (obj_get q PAGINATE_KEY)
   \<and> query d q options s =
     (if truthy (obj_get q PAGINATE_KEY)
      then (Inr (parseQuery q
                  (PageOf (map (drv_load d (Some (createTypeormRelationsArray q)))
                            (fst (drv_page d (get_prop (obj_get q PAGINATE_KEY) PAGINATE_PAGE)
                                   (get_prop (obj_get q PAGINATE_KEY) PAGINATE_LIMIT)
                                   (drv_select d options (rows s)))))
                     (snd (drv_page d (get_prop (obj_get q PAGINATE_KEY) PAGINATE_PAGE)
                            (get_prop (obj_get q PAGINATE_KEY) PAGINATE_LIMIT)
                            (drv_select d options (rows s)))))),
            record_call (Paginate (get_prop (obj_get q PAGINATE_KEY) PAGINATE_PAGE)
              (get_prop (obj_get q PAGINATE_KEY) PAGINATE_LIMIT) options
              (createTypeormRelationsArray q)) s)
      else (Inr (parseQuery q
                  (ManyEntities (map (drv_load d (Some (createTypeormRelationsArray q)))
                     (drv_select d options (rows s))))),
            record_call (RepoFind options (Some (createTypeormRelationsArray q))) s))"
proof -
  have "paginated_mode d q options s = truthy (obj_get q PAGINATE_KEY)"
    by (simp add: paginated_mode_def query_eq calls_since_def)
  then show ?thesis using query_eq [of d q options s] by simp
qed

theorem query_mode_by_reserved_key_witness:
  "fst (query demo_driver demo_page_query None demo_state) =
     Inr (PageOf [[(''name'', VStr ''Ann'')]] [(''totalItems'', VNum 2)])
   \<and> calls_since demo_state (snd (query demo_driver demo_page_query None demo_state)) =
     [Paginate (VNum 1) (VNum 1) None []]
   \<and> fst (query demo_driver demo_flat_query (Some [(''take'', VNum 5)]) demo_state) =
     Inr (ManyEntities [[(''name'', VStr ''Ann'')], [(''name'', VStr ''Bob'')]])
   \<and> calls_since demo_state
       (snd (query demo_driver demo_flat_query (Some [(''take'', VNum 5)]) demo_state)) =
     [RepoFind (Some [(''take'', VNum 5)]) (Some [])]"
  using query_mode_by_reserved_key [of demo_driver demo_page_query None demo_state]
    query_mode_by_reserved_key
      [of demo_driver demo_flat_query "Some [(''take'', VNum 5)]" demo_state]
  by (simp add: demo_page_query_def demo_flat_query_def demo_driver_def demo_state_def
      obj_get_def reserved_key_def PAGINATE_KEY_def PAGINATE_PAGE_def PAGINATE_LIMIT_def
      createTypeormRelationsArray_def calls_since_def)

subsection \<open>Empty inputs\<close>

text \<open>
  C4. \<open>findMany\<close>, \<open>upsertMany\<close> and \<open>deleteMany\<close> on an empty list return an empty list
  and leave the state exactly as it was: no call is recorded, so the store is neither
  read nor written and nothing is invalidated, with or without a query specification.
\<close>

theorem empty_input_short_circuits:
  "findMany d [] qopt s = (Inr (ManyEntities []), s)
   \<and> upsertMany d [] qopt s = (Inr (ManyEntities []), s)
   \<and> deleteMany d [] s = (Inr [], s)"
  by (simp add: findMany_def upsertMany_def deleteMany_def)

subsection \<open>\<open>upsertMany\<close>\<close>

text \<open>
  C5. For every non-empty list of entities, \<open>upsertMany(entities[, spec])\<close> batch-writes
  the entities (after the call each of their ids has a row, and rows with other ids are
  untouched), fires the invalidation trigger once, with the full list of their ids,
  and returns what \<open>findMany\<close> reads back for exactly those ids, projected when a spec is
  given. The store accepting the write is the one condition.
\<close>

theorem upsertMany_writes_triggers_rereads:
  assumes ne: "entities \<noteq> []"
    and ok: "\<not> drv_save_fails d entities (rows s)"
  shows "rows (snd (upsertMany d entities qopt s)) = foldl save_row (rows s) entities
    \<and> (\<forall>e \<in> set entities.
          lookup_row (entity_id e) (rows (snd (upsertMany d entities qopt s))) \<noteq> None)
    \<and> (\<forall>j. j \<notin> entity_id ` set entities \<longrightarrow>
          lookup_row j (rows (snd (upsertMany d entities qopt s))) = lookup_row j (rows s))
    \<and> calls_since s (snd (upsertMany d entities qopt s)) =
        [RepoSave (Batch entities), Trigger (Batch (map entity_id entities)),
         RepoFindByIds (map entity_id entities) (relations_of qopt)]
    \<and> triggered (calls_since s (snd (upsertMany d entities qopt s))) =
        [Batch (map entity_id entities)]
    \<and> upsertMany d entities qopt s =
        findMany d (map entity_id entities) qopt
          (trigger (Batch (map entity_id entities)) (snd (repo_save d (Batch entities) s)))
    \<and> fst (upsertMany d entities qopt s) =
        Inr (projected qopt (ManyEntities (map (drv_load d (relations_of qopt))
               (filter (\<lambda>r. entity_id r \<in> entity_id ` set entities)
                  (rows (snd (upsertMany d entities qopt s)))))))"
proof -
  have save: "repo_save d (Batch entities) s =
      (Inr (), record_call (RepoSave (Batch entities))
                 (s\<lparr>rows := foldl save_row (rows s) entities\<rparr>))"
    using ok by (simp add: repo_save_def)
  have run: "upsertMany d entities qopt s =
      (Inr (projected qopt (ManyEntities (map (drv_load d (relations_of qopt))
               (filter (\<lambda>r. entity_id r \<in> entity_id ` set entities)
                  (foldl save_row (rows s) entities))))),
       record_call (RepoFindByIds (map entity_id entities) (relations_of qopt))
         (trigger (Batch (map entity_id entities))
           (record_call (RepoSave (Batch entities))
              (s\<lparr>rows := foldl save_row (rows s) entities\<rparr>))))"
    using ne by (simp add: upsertMany_accepted [OF ne ok] findMany_eq)
  have written: "\<forall>e \<in> set entities.
      lookup_row (entity_id e) (foldl save_row (rows s) entities) \<noteq> None"
    by (simp add: lookup_row_foldl_save_row_written)
  have others: "\<forall>j. j \<notin> entity_id ` set entities \<longrightarrow>
      lookup_row j (foldl save_row (rows s) entities) = lookup_row j (rows s)"
    by (simp add: lookup_row_foldl_save_row_other)
  have again: "upsertMany d entities qopt s =
        findMany d (map entity_id entities) qopt
          (trigger (Batch (map entity_id entities)) (snd (repo_save d (Batch entities) s)))"
    by (simp add: upsertMany_accepted [OF ne ok] save)
  have rest: "rows (snd (upsertMany d entities qopt s)) = foldl save_row (rows s) entities
    \<and> (\<forall>e \<in> set entities.
          lookup_row (entity_id e) (rows (snd (upsertMany d entities qopt s))) \<noteq> None)
    \<and> (\<forall>j. j \<notin> entity_id ` set entities \<longrightarrow>
          lookup_row j (rows (snd (upsertMany d entities qopt s))) = lookup_row j (rows s))
    \<and> calls_since s (snd (upsertMany d entities qopt s)) =
        [RepoSave (Batch entities), Trigger (Batch (map entity_id entities)),
         RepoFindByIds (map entity_id entities) (relations_of qopt)]
    \<and> triggered (calls_since s (snd (upsertMany d entities qopt s))) =
        [Batch (map entity_id entities)]
    \<and> fst (upsertMany d entities qopt s) =
        Inr (projected qopt (ManyEntities (map (drv_load d (relations_of qopt))
               (filter (\<lambda>r. entity_id r \<in> entity_id ` set entities)
                  (rows (snd (upsertMany d entities qopt s)))))))"
    using written others by (simp add: run calls_since_def)
  from rest again show ?thesis by blast
qed

theorem upsertMany_writes_triggers_rereads_witness:
  "demo_batch \<noteq> [] \<and> \<not> drv_save_fails demo_driver demo_batch (rows demo_state)
   \<and> rows (snd (upsertMany demo_driver demo_batch (Some [(''name'', VBool True)]) demo_state)) =
       [[(''id'', VStr ''a''), (''name'', VStr ''Ann''), (''age'', VNum 30)],
        [(''id'', VStr ''b''), (''name'', VStr ''Bobby'')],
        [(''id'', VStr ''d'')]]
   \<and> fst (upsertMany demo_driver demo_batch (Some [(''name'', VBool True)]) demo_state) =
       Inr (ManyEntities [[(''name'', VStr ''Bobby'')], []])
   \<and> triggered (calls_since demo_state
         (snd (upsertMany demo_driver demo_batch (Some [(''name'', VBool True)]) demo_state))) =
       [Batch [VStr ''b'', VStr ''d'']]"
proof -
  have ne: "demo_batch \<noteq> []" by (simp add: demo_batch_def)
  have ok: "\<not> drv_save_fails demo_driver demo_batch (rows demo_state)"
    by (simp add: demo_driver_def)
  note t = upsertMany_writes_triggers_rereads [OF ne ok, of "Some [(''name'', VBool True)]"]
  have r: "rows (snd (upsertMany demo_driver demo_batch (Some [(''name'', VBool True)]) demo_state))
      = foldl save_row (rows demo_state) demo_batch"
    using t by blast
  have v: "fst (upsertMany demo_driver demo_batch (Some [(''name'', VBool True)]) demo_state) =
      Inr (projected (Some [(''name'', VBool True)])
             (ManyEntities (map (drv_load demo_driver (relations_of (Some [(''name'', VBool True)])))
               (filter (\<lambda>r. entity_id r \<in> entity_id ` set demo_batch)
                  (rows (snd (upsertMany demo_driver demo_batch
                                (Some [(''name'', VBool True)]) demo_state)))))))"
    using t by blast
  have g: "triggered (calls_since demo_state
         (snd (upsertMany demo_driver demo_batch (Some [(''name'', VBool True)]) demo_state))) =
       [Batch (map entity_id demo_batch)]"
    using t by blast
  have tbl: "foldl save_row (rows demo_state) demo_batch =
       [[(''id'', VStr ''a''), (''name'', VStr ''Ann''), (''age'', VNum 30)],
        [(''id'', VStr ''b''), (''name'', VStr ''Bobby'')],
        [(''id'', VStr ''d'')]]"
    by (simp add: demo_batch_def demo_state_def lookup_row_def entity_id_def obj_get_def
        save_row_def AList.merge_def)
  show ?thesis using ne ok
    by (simp add: r v g tbl)
      (simp add: demo_batch_def demo_driver_def projected_def entity_id_def obj_get_def
        PAGINATE_KEY_def)
qed

subsection \<open>\<open>delete\<close> and \<open>deleteMany\<close>\<close>

text \<open>
  C6. \<open>delete(id)\<close> deletes the row identified by id, then fires the invalidation trigger
  with exactly that id, and returns exactly the input id. \<open>deleteMany(ids)\<close> on a
  non-empty list deletes the rows with those ids in one batch, then fires the trigger
  once with the full id list, and returns exactly the input list. Rows with other ids
  stay. The store accepting the delete is the one condition.
\<close>

theorem delete_and_deleteMany:
  "(\<not> drv_delete_fails d [i] (rows s) \<longrightarrow>
      delete d i s =
        (Inr i, s\<lparr>rows := filter (\<lambda>r. entity_id r \<noteq> i) (rows s),
                  trace := trace s @ [RepoDelete (Single i), Trigger (Single i)]\<rparr>)
    \<and> lookup_row i (rows (snd (delete d i s))) = None
    \<and> (\<forall>j. j \<noteq> i \<longrightarrow> lookup_row j (rows (snd (delete d i s))) = lookup_row j (rows s)))
   \<and> (ids \<noteq> [] \<and> \<not> drv_delete_fails d ids (rows s) \<longrightarrow>
      deleteMany d ids s =
        (Inr ids, s\<lparr>rows := filter (\<lambda>r. entity_id r \<notin> set ids) (rows s),
                    trace := trace s @ [RepoDelete (Batch ids), Trigger (Batch ids)]\<rparr>)
    \<and> (\<forall>j. lookup_row j (rows (snd (deleteMany d ids s))) =
             (if j \<in> set ids then None else lookup_row j (rows s))))"
  by (simp add: delete_accepted deleteMany_accepted trigger_def record_call_def
      lookup_row_filter_out lookup_row_filter_keep lookup_row_filter_set)

theorem delete_and_deleteMany_witness:
  "\<not> drv_delete_fails demo_driver [VStr ''a''] (rows demo_state)
   \<and> [VStr ''a'', VStr ''q''] \<noteq> []
   \<and> \<not> drv_delete_fails demo_driver [VStr ''a'', VStr ''q''] (rows demo_state)
   \<and> delete demo_driver (VStr ''a'') demo_state =
       (Inr (VStr ''a''),
        \<lparr>rows = [[(''id'', VStr ''b''), (''name'', VStr ''Bob'')]],
         trace = [RepoDelete (Single (VStr ''a'')), Trigger (Single (VStr ''a''))]\<rparr>)
   \<and> deleteMany demo_driver [VStr ''a'', VStr ''q''] demo_state =
       (Inr [VStr ''a'', VStr ''q''],
        \<lparr>rows = [[(''id'', VStr ''b''), (''name'', VStr ''Bob'')]],
         trace = [RepoDelete (Batch [VStr ''a'', VStr ''q'']),
                  Trigger (Batch [VStr ''a'', VStr ''q''])]\<rparr>)"
  using delete_and_deleteMany [of demo_driver "VStr ''a''" demo_state "[VStr ''a'', VStr ''q'']"]
  by (simp add: demo_driver_def demo_state_def entity_id_def obj_get_def)

subsection \<open>\<open>findOneOrFail\<close> and \<open>findOne\<close>\<close>

text \<open>
  C7. For every id, \<open>findOneOrFail(id[, spec])\<close> makes one fetch with the relation list
  extracted from the spec; if a row matches the id it returns that row as loaded,
  projected through the spec; it fails with \<open>NotFound\<close> if and only if no row matches
  the id, and the failure is what the caller gets: never an absent or empty result.
\<close>

theorem findOneOrFail_NotFound_iff_no_row:
  "(fst (findOneOrFail d i qopt s) = Inl NotFound \<longleftrightarrow> lookup_row i (rows s) = None)
   \<and> (lookup_row i (rows s) = None \<longrightarrow>
        findOneOrFail d i qopt s =
          (Inl NotFound, record_call (RepoFindOneOrFail i (relations_of qopt)) s))
   \<and> (\<forall>r. lookup_row i (rows s) = Some r \<longrightarrow>
        findOneOrFail d i qopt s =
          (Inr (projected qopt (OneEntity (drv_load d (relations_of qopt) r))),
           record_call (RepoFindOneOrFail i (relations_of qopt)) s))
   \<and> fst (findOneOrFail d i qopt s) \<noteq> Inr NoEntity
   \<and> fst (findOneOrFail d i qopt s) \<noteq> Inr (ManyEntities [])"
  by (simp add: findOneOrFail_eq projected_OneEntity split: option.splits)

theorem findOneOrFail_NotFound_iff_no_row_witness:
  "lookup_row (VStr ''q'') (rows demo_state) = None
   \<and> lookup_row (VStr ''b'') (rows demo_state) = Some [(''id'', VStr ''b''), (''name'', VStr ''Bob'')]
   \<and> fst (findOneOrFail demo_driver (VStr ''q'') (Some [(''name'', VBool True)]) demo_state) =
       Inl NotFound
   \<and> fst (findOneOrFail demo_driver (VStr ''b'') (Some [(''name'', VBool True)]) demo_state) =
       Inr (OneEntity [(''name'', VStr ''Bob'')])"
  using findOneOrFail_NotFound_iff_no_row
      [of demo_driver "VStr ''q''" "Some [(''name'', VBool True)]" demo_state]
    findOneOrFail_NotFound_iff_no_row
      [of demo_driver "VStr ''b''" "Some [(''name'', VBool True)]" demo_state]
  by (simp add: demo_driver_def demo_state_def lookup_row_def entity_id_def obj_get_def
      projected_def relations_of_def PAGINATE_KEY_def)

text \<open>
  C8. For every id, \<open>findOne(id[, spec])\<close> never fails; when no row matches the id it
  returns the absent result, both without a query specification and when projecting
  through one.
\<close>

theorem findOne_absent_not_failure:
  "(\<forall>err. fst (findOne d i qopt s) \<noteq> Inl err)
   \<and> (lookup_row i (rows s) = None \<longrightarrow>
        findOne d i None s = (Inr NoEntity, record_call (RepoFindOne i None) s)
      \<and> findOne d i (Some q) s =
          (Inr NoEntity, record_call (RepoFindOne i (Some (createTypeormRelationsArray q))) s))"
  by (simp add: findOne_eq relations_of_def split: option.splits)

theorem findOne_absent_not_failure_witness:
  "lookup_row (VStr ''q'') (rows demo_state) = None
   \<and> fst (findOne demo_driver (VStr ''q'') None demo_state) = Inr NoEntity
   \<and> fst (findOne demo_driver (VStr ''q'') (Some [(''name'', VBool True)]) demo_state) = Inr NoEntity"
  using findOne_absent_not_failure
      [of demo_driver "VStr ''q''" None demo_state "[(''name'', VBool True)]"]
  by (simp add: demo_state_def lookup_row_def entity_id_def obj_get_def)

subsection \<open>The record \<open>update\<close> saves\<close>

text \<open>
  C9. For every call \<open>update(id, partial)\<close>, the one record handed to the store's save is
  the partial entity with its \<open>id\<close> property set to the id argument: its identifier is
  the id argument whatever \<open>id\<close> the partial carried, and every other property is the
  partial's.
\<close>

theorem update_saves_record_with_id_argument:
  "saved (calls_since s (snd (update d i entity qopt s))) = [Single (AList.update ''id'' i entity)]
   \<and> entity_id (AList.update ''id'' i entity) = i
   \<and> map_of (AList.update ''id'' i entity) = (map_of entity)(''id'' \<mapsto> i)"
proof (cases "drv_save_fails d [AList.update ''id'' i entity] (rows s)")
  case True
  then show ?thesis by (simp add: update_rejected calls_since_def update_conv')
next
  case False
  then show ?thesis by (simp add: update_accepted findOneOrFail_eq calls_since_def update_conv')
qed

theorem update_saves_record_with_id_argument_witness:
  "entity_id demo_patch = VStr ''zzz''
   \<and> saved (calls_since demo_state
        (snd (update demo_driver (VStr ''a'') demo_patch None demo_state))) =
      [Single [(''name'', VStr ''Anna''), (''id'', VStr ''a'')]]"
  using update_saves_record_with_id_argument [of demo_state demo_driver "VStr ''a''" demo_patch None]
  by (simp add: demo_patch_def entity_id_def obj_get_def)

subsection \<open>Reads leave the subscribers alone\<close>

text \<open>
  C10. No read operation (\<open>findOne\<close>, \<open>findOneOrFail\<close>, \<open>findMany\<close>, \<open>findAll\<close>, \<open>query\<close>)
  ever invokes the invalidation trigger: none of the calls a read makes is a trigger,
  and the invalidations on record after a read are those on record before it.
\<close>

theorem reads_never_trigger:
  "triggered (calls_since s (snd (findOne d i qopt s))) = []
   \<and> triggered (calls_since s (snd (findOneOrFail d i qopt s))) = []
   \<and> triggered (calls_since s (snd (findMany d ids qopt s))) = []
   \<and> triggered (calls_since s (snd (findAll d qopt s))) = []
   \<and> triggered (calls_since s (snd (query d q options s))) = []
   \<and> triggered (trace (snd (findOne d i qopt s))) = triggered (trace s)
   \<and> triggered (trace (snd (findOneOrFail d i qopt s))) = triggered (trace s)
   \<and> triggered (trace (snd (findMany d ids qopt s))) = triggered (trace s)
   \<and> triggered (trace (snd (findAll d qopt s))) = triggered (trace s)
   \<and> triggered (trace (snd (query d q options s))) = triggered (trace s)"
proof -
  have many: "triggered (calls_since s (snd (findMany d ids qopt s))) = []
      \<and> triggered (trace (snd (findMany d ids qopt s))) = triggered (trace s)"
  proof (cases "ids = []")
    case True
    then show ?thesis by (simp add: findMany_def calls_since_def)
  next
    case False
    then show ?thesis by (simp add: findMany_eq calls_since_def triggered_append)
  qed
  have one: "triggered (calls_since s (snd (findOne d i qopt s))) = []
      \<and> triggered (trace (snd (findOne d i qopt s))) = triggered (trace s)"
    by (simp add: findOne_eq calls_since_def triggered_append)
  have orfail: "triggered (calls_since s (snd (findOneOrFail d i qopt s))) = []
      \<and> triggered (trace (snd (findOneOrFail d i qopt s))) = triggered (trace s)"
    by (simp add: findOneOrFail_eq calls_since_def triggered_append)
  have all: "triggered (calls_since s (snd (findAll d qopt s))) = []
      \<and> triggered (trace (snd (findAll d qopt s))) = triggered (trace s)"
    by (simp add: findAll_eq calls_since_def triggered_append)
  have qry: "triggered (calls_since s (snd (query d q options s))) = []
      \<and> triggered (trace (snd (query d q options s))) = triggered (trace s)"
    by (simp add: query_eq calls_since_def triggered_append)
  from one orfail many all qry show ?thesis by simp
qed

end
